theory Spec2Isabelle
  imports Complex_Main "HOL-Library.Word"
begin

unbundle bit_operations_syntax

section \<open>JavaScript values and the built-in conversions the module relies on\<close>

text \<open>
  The module is written in JavaScript and leans on the language's coercions
  (\<^verbatim>\<open>Number(v)\<close>, \<^verbatim>\<open>parseFloat(v)\<close>, \<^verbatim>\<open>parseInt(v, 10)\<close>, \<^verbatim>\<open>String(v)\<close>,
  \<^verbatim>\<open>x.toFixed(1)\<close>, \<^verbatim>\<open>Math.round\<close>, \<^verbatim>\<open>a || b\<close>).  They are written out here after
  ECMA-262.  A finite number is an exact rational: the rounding error of IEEE doubles and
  the sign of zero are not modelled, \<open>NaN\<close> and the two infinities are.  Strings are
  lists of 8-bit characters.  An object or a function is \<open>VObj s\<close>, with \<open>s\<close> the string
  that \<^verbatim>\<open>String(...)\<close> gives for it: the module meets such values only as properties
  inherited from \<^verbatim>\<open>Object.prototype\<close>, and only converts them.
\<close>

datatype jsnum = Fin rat | NaN | PInf | NInf

datatype jsval = VUndef | VNull | VBool bool | VNum jsnum | VStr string | VObj string

definition isWhiteSpace :: "char \<Rightarrow> bool" where
  "isWhiteSpace c = (c \<in> set [CHR 0x09, CHR 0x0A, CHR 0x0B, CHR 0x0C, CHR 0x0D, CHR 0x20, CHR 0xA0])"

definition js_trim :: "string \<Rightarrow> string" where
  "js_trim s = rev (dropWhile isWhiteSpace (rev (dropWhile isWhiteSpace s)))"

definition isDigit :: "char \<Rightarrow> bool" where
  "isDigit c = (48 \<le> (of_char c :: int) \<and> (of_char c :: int) \<le> 57)"

definition digitVal :: "char \<Rightarrow> int" where
  "digitVal c = of_char c - 48"

definition digitsVal :: "string \<Rightarrow> int" where
  "digitsVal ds = foldl (\<lambda>a c. 10 * a + digitVal c) 0 ds"

definition startsWith :: "string \<Rightarrow> string \<Rightarrow> bool" where
  "startsWith s p = (take (length p) s = p)"

definition endsWith :: "string \<Rightarrow> string \<Rightarrow> bool" where
  "endsWith s p = (length p \<le> length s \<and> drop (length s - length p) s = p)"

definition js_neg :: "jsnum \<Rightarrow> jsnum" where
  "js_neg n = (case n of Fin x \<Rightarrow> Fin (- x) | NaN \<Rightarrow> NaN | PInf \<Rightarrow> NInf | NInf \<Rightarrow> PInf)"

definition pow10 :: "int \<Rightarrow> rat" where
  "pow10 e = (if 0 \<le> e then 10 ^ nat e else 1 / 10 ^ nat (- e))"

text \<open>The optional exponent part of a decimal literal: its value and what follows it.
  Without digits after the \<open>e\<close> there is no exponent part and nothing is consumed.\<close>

definition parseExponent :: "string \<Rightarrow> int \<times> string" where
  "parseExponent s =
     (case s of
        [] \<Rightarrow> (0, s)
      | c # r \<Rightarrow>
          if c = CHR ''e'' \<or> c = CHR ''E'' then
            (let sg = (if startsWith r ''-'' then - 1 else 1);
                 r1 = (if startsWith r ''+'' \<or> startsWith r ''-'' then tl r else r);
                 ds = takeWhile isDigit r1
             in if ds = [] then (0, s) else (sg * digitsVal ds, dropWhile isDigit r1))
          else (0, s))"

text \<open>The longest prefix that is an unsigned \<open>StrDecimalLiteral\<close>
  (\<open>Infinity\<close>, \<open>d+[.d*][e\<plusminus>d+]\<close> or \<open>.d+[e\<plusminus>d+]\<close>), with its value and the rest.\<close>

definition parseUnsignedDecimal :: "string \<Rightarrow> (jsnum \<times> string) option" where
  "parseUnsignedDecimal s =
     (if startsWith s ''Infinity'' then Some (PInf, drop 8 s)
      else
        let ip = takeWhile isDigit s;
            r1 = dropWhile isDigit s;
            hasDot = startsWith r1 ''.'';
            fp = (if hasDot then takeWhile isDigit (tl r1) else []);
            r2 = (if hasDot then dropWhile isDigit (tl r1) else r1)
        in if ip = [] \<and> fp = [] then None
           else
             let (e, r3) = parseExponent r2
             in Some (Fin (of_int (digitsVal (ip @ fp)) * pow10 (e - int (length fp))), r3))"

definition parseDecimal :: "string \<Rightarrow> (jsnum \<times> string) option" where
  "parseDecimal s =
     (if startsWith s ''+'' then parseUnsignedDecimal (tl s)
      else if startsWith s ''-'' then
        map_option (\<lambda>(v, r). (js_neg v, r)) (parseUnsignedDecimal (tl s))
      else parseUnsignedDecimal s)"

text \<open>\<^verbatim>\<open>parseFloat\<close> on a string: leading white space is skipped, the longest decimal
  prefix is read, anything after it is ignored; no such prefix gives \<open>NaN\<close>.\<close>

definition parseFloatStr :: "string \<Rightarrow> jsnum" where
  "parseFloatStr s =
     (case parseDecimal (dropWhile isWhiteSpace s) of Some (v, _) \<Rightarrow> v | None \<Rightarrow> NaN)"

definition radixDigit :: "int \<Rightarrow> char \<Rightarrow> int option" where
  "radixDigit b c =
     (let n = (of_char c :: int);
          v = (if 48 \<le> n \<and> n \<le> 57 then n - 48
               else if 97 \<le> n \<and> n \<le> 102 then n - 87
               else if 65 \<le> n \<and> n \<le> 70 then n - 55
               else 16)
      in if v < b then Some v else None)"

definition radixVal :: "int \<Rightarrow> string \<Rightarrow> int option" where
  "radixVal b ds =
     (if ds \<noteq> [] \<and> list_all (\<lambda>c. radixDigit b c \<noteq> None) ds
      then Some (foldl (\<lambda>a c. b * a + the (radixDigit b c)) 0 ds)
      else None)"

text \<open>The literals \<open>0x..\<close>, \<open>0o..\<close> and \<open>0b..\<close> that \<^verbatim>\<open>Number\<close> accepts besides decimals.\<close>

definition nonDecimalLiteral :: "string \<Rightarrow> int option" where
  "nonDecimalLiteral t =
     (if startsWith t ''0x'' \<or> startsWith t ''0X'' then radixVal 16 (drop 2 t)
      else if startsWith t ''0o'' \<or> startsWith t ''0O'' then radixVal 8 (drop 2 t)
      else if startsWith t ''0b'' \<or> startsWith t ''0B'' then radixVal 2 (drop 2 t)
      else None)"

text \<open>\<^verbatim>\<open>Number\<close> on a string: the trimmed string must be empty (0) or be one numeric literal
  in full; anything else is \<open>NaN\<close>.\<close>

definition stringToNumber :: "string \<Rightarrow> jsnum" where
  "stringToNumber s =
     (let t = js_trim s
      in if t = [] then Fin 0
         else case nonDecimalLiteral t of
                Some n \<Rightarrow> Fin (of_int n)
              | None \<Rightarrow> (case parseDecimal t of
                           Some (v, r) \<Rightarrow> if r = [] then v else NaN
                         | None \<Rightarrow> NaN))"

definition toNumber :: "jsval \<Rightarrow> jsnum" where
  "toNumber v =
     (case v of
        VUndef \<Rightarrow> NaN
      | VNull \<Rightarrow> Fin 0
      | VBool b \<Rightarrow> Fin (if b then 1 else 0)
      | VNum n \<Rightarrow> n
      | VStr s \<Rightarrow> stringToNumber s
      | VObj s \<Rightarrow> stringToNumber s)"

subsection \<open>Numbers to strings\<close>

text \<open>The decimal digits of a non-negative integer.\<close>

function natDigits :: "int \<Rightarrow> string" where
  "natDigits n =
     (if n < 10 then [''0123456789'' ! nat n]
      else natDigits (n div 10) @ [''0123456789'' ! nat (n mod 10)])"
  by pat_completeness auto
termination
  by (relation "measure nat") auto

declare natDigits.simps [simp del]

text \<open>The number of decimal places of a fraction in lowest terms with denominator \<open>d\<close>,
  when \<open>d\<close> has no prime factor besides 2 and 5.  Every number the module computes is
  such a finite decimal.\<close>

function decimalPlaces :: "int \<Rightarrow> nat" where
  "decimalPlaces d =
     (if d \<le> 1 then 0
      else if d mod 10 = 0 then Suc (decimalPlaces (d div 10))
      else if d mod 2 = 0 then Suc (decimalPlaces (d div 2))
      else if d mod 5 = 0 then Suc (decimalPlaces (d div 5))
      else 0)"
  by pat_completeness auto
termination
  by (relation "measure nat") auto

declare decimalPlaces.simps [simp del]

text \<open>\<^verbatim>\<open>Number::toString\<close> for a positive finite number: with \<open>s\<close> the significant digits
  (\<open>k\<close> of them) and \<open>n\<close> the position of the decimal point, plain notation is used for
  \<open>-6 < n \<le> 21\<close> and exponent notation otherwise.\<close>

definition posToString :: "rat \<Rightarrow> string" where
  "posToString x =
     (let j = decimalPlaces (snd (quotient_of x));
          ds = natDigits \<lfloor>x * 10 ^ j\<rfloor>;
          s = rev (dropWhile (\<lambda>c. c = CHR ''0'') (rev ds));
          k = int (length s);
          n = int (length ds) - int j
      in if k \<le> n \<and> n \<le> 21 then s @ replicate (nat (n - k)) (CHR ''0'')
         else if 0 < n \<and> n \<le> 21 then take (nat n) s @ ''.'' @ drop (nat n) s
         else if - 6 < n \<and> n \<le> 0 then ''0.'' @ replicate (nat (- n)) (CHR ''0'') @ s
         else
           let ex = (if 0 \<le> n - 1 then ''+'' else ''-'') @ natDigits \<bar>n - 1\<bar>
           in if k = 1 then s @ ''e'' @ ex
              else take 1 s @ ''.'' @ drop 1 s @ ''e'' @ ex)"

definition numToString :: "jsnum \<Rightarrow> string" where
  "numToString n =
     (case n of
        NaN \<Rightarrow> ''NaN''
      | PInf \<Rightarrow> ''Infinity''
      | NInf \<Rightarrow> ''-Infinity''
      | Fin x \<Rightarrow> if x = 0 then ''0''
                 else if x < 0 then ''-'' @ posToString (- x)
                 else posToString x)"

definition toString :: "jsval \<Rightarrow> string" where
  "toString v =
     (case v of
        VUndef \<Rightarrow> ''undefined''
      | VNull \<Rightarrow> ''null''
      | VBool b \<Rightarrow> (if b then ''true'' else ''false'')
      | VNum n \<Rightarrow> numToString n
      | VStr s \<Rightarrow> s
      | VObj s \<Rightarrow> s)"

text \<open>\<^verbatim>\<open>parseFloat(v)\<close> first converts its argument to a string.\<close>

definition parseFloat :: "jsval \<Rightarrow> jsnum" where
  "parseFloat v = parseFloatStr (toString v)"


text \<open>\<^verbatim>\<open>Math.round\<close>: the nearest integer, ties towards plus infinity.\<close>

definition mathRound :: "rat \<Rightarrow> int" where
  "mathRound x = \<lfloor>x + 1 / 2\<rfloor>"

text \<open>\<^verbatim>\<open>x.toFixed(1)\<close> for finite \<open>x\<close>: from \<open>10 ^ 21\<close> on it is \<^verbatim>\<open>String(x)\<close>; below,
  the integer \<open>n\<close> nearest to \<open>10 * x\<close> (the larger on a tie) is printed with a point before
  its last digit.\<close>

definition toFixed1 :: "rat \<Rightarrow> string" where
  "toFixed1 x0 =
     (let sgn = (if x0 < 0 then ''-'' else []);
          x = \<bar>x0\<bar>
      in if 10 ^ 21 \<le> x then sgn @ posToString x
         else
           let m = natDigits \<lfloor>x * 10 + 1 / 2\<rfloor>;
               m' = (if length m \<le> 1 then CHR ''0'' # m else m)
           in sgn @ butlast m' @ ''.'' @ [last m'])"








section \<open>Value formatting\<close>

text \<open>\<^verbatim>\<open>formatSyncValue(value)\<close>, index.js.\<close>

definition formatSyncValue :: "jsval \<Rightarrow> string" where
  "formatSyncValue v =
     (if v = VBool True then ''1''
      else if v = VBool False then ''0''
      else case toNumber v of
             Fin num \<Rightarrow>
               if num = 0 \<or> num = 1 then numToString (Fin num)
               else
                 let rounded = of_int (mathRound (num * 10)) / 10
                 in toFixed1 rounded
           | _ \<Rightarrow> toString v)"

section \<open>The module instance\<close>

text \<open>
  The fields of \<^verbatim>\<open>SynqDbt44Instance\<close> that the transport core reads and writes.  Calls
  into the host (\<^verbatim>\<open>log\<close>, \<^verbatim>\<open>setVariableDefinitions\<close>, \<^verbatim>\<open>setVariableValues\<close>,
  \<^verbatim>\<open>checkFeedbacks\<close>) change no field and are left out; of \<^verbatim>\<open>updateStatus\<close> the last
  status and label are kept in \<open>status\<close>, and every \<^verbatim>\<open>oscSend\<close> is appended to \<open>sent\<close>.
  An entry of \<^verbatim>\<open>syncVariableDefs\<close> is kept as its \<^verbatim>\<open>variableId\<close>: the \<^verbatim>\<open>name\<close> stored
  beside it is never read, since every publication recomputes it from the id.
\<close>

type_synonym byte = "8 word"

record config =
  host :: string
  device_name :: "string option"
  targetPort :: string
  feedbackPort :: string

record oscarg =
  argType :: string
  argValue :: jsval

record dbt44 =
  config :: config
  targetHost :: "string option"
  receiveBuffer :: "byte list"
  syncState :: "string \<rightharpoonup> jsval"
  syncVariableDefs :: "string list"
  savedMatrixGain :: "string \<rightharpoonup> jsnum"
  status :: "(string \<times> string) option"
  sent :: "(string \<times> string \<times> string \<times> oscarg list) list"

text \<open>\<^verbatim>\<open>(this.config.device_name || '').trim()\<close>\<close>

definition deviceName :: "config \<Rightarrow> string" where
  "deviceName cfg = js_trim (case device_name cfg of None \<Rightarrow> [] | Some n \<Rightarrow> n)"

section \<open>Address mapper\<close>

text \<open>\<^verbatim>\<open>oscPath(pathWithoutName)\<close>; \<open>None\<close> is the source's \<^verbatim>\<open>null\<close>.\<close>

definition oscPath :: "config \<Rightarrow> string \<Rightarrow> string option" where
  "oscPath cfg pathWithoutName =
     (let name = deviceName cfg
      in if name = [] then None
         else
           let base = (if startsWith pathWithoutName ''/'' then pathWithoutName
                       else ''/'' @ pathWithoutName)
           in Some (base @ ''/'' @ name))"

definition slashToUnderscore :: "string \<Rightarrow> string" where
  "slashToUnderscore s = map (\<lambda>c. if c = CHR ''/'' then CHR ''_'' else c) s"

text \<open>\<^verbatim>\<open>pathToVariableId(path)\<close> on a string.  The slice end
  \<^verbatim>\<open>path.length - name.length - 1\<close> is computed only when \<^verbatim>\<open>endsWith\<close> holds, where it
  is not negative.\<close>

definition pathToVariableId :: "config \<Rightarrow> string \<Rightarrow> string option" where
  "pathToVariableId cfg path =
     (if path = [] then None
      else
        let name = deviceName cfg;
            withoutName = (if name \<noteq> [] \<and> endsWith path (''/'' @ name)
                           then take (length path - length name - 1) path
                           else path)
        in Some (slashToUnderscore
                   (if startsWith withoutName ''/'' then tl withoutName else withoutName)))"

section \<open>State store\<close>

text \<open>
  \<^verbatim>\<open>this.syncState\<close> is created as \<^verbatim>\<open>{}\<close>: a plain object, whose prototype is
  \<^verbatim>\<open>Object.prototype\<close>.  The field \<open>syncState\<close> holds its own properties.  What it
  inherits are the twelve properties of \<^verbatim>\<open>Object.prototype\<close> in Node.js: the accessor
  \<^verbatim>\<open>__proto__\<close>, whose getter gives \<^verbatim>\<open>Object.prototype\<close> itself, and eleven built-in
  functions.
\<close>

definition nativeFunction :: "string \<Rightarrow> jsval" where
  "nativeFunction name = VObj (''function '' @ name @ ''() { [native code] }'')"

definition objectPrototype :: "(string \<times> jsval) list" where
  "objectPrototype =
     [(''__proto__'', VObj ''[object Object]''),
      (''constructor'', nativeFunction ''Object''),
      (''hasOwnProperty'', nativeFunction ''hasOwnProperty''),
      (''isPrototypeOf'', nativeFunction ''isPrototypeOf''),
      (''propertyIsEnumerable'', nativeFunction ''propertyIsEnumerable''),
      (''toLocaleString'', nativeFunction ''toLocaleString''),
      (''toString'', nativeFunction ''toString''),
      (''valueOf'', nativeFunction ''valueOf''),
      (''__defineGetter__'', nativeFunction ''__defineGetter__''),
      (''__defineSetter__'', nativeFunction ''__defineSetter__''),
      (''__lookupGetter__'', nativeFunction ''__lookupGetter__''),
      (''__lookupSetter__'', nativeFunction ''__lookupSetter__'')]"

text \<open>\<^verbatim>\<open>obj[key]\<close> on a plain object with the own properties \<open>own\<close>: the own property,
  else the inherited one, else \<^verbatim>\<open>undefined\<close>.\<close>

definition objectGet :: "(string \<rightharpoonup> jsval) \<Rightarrow> string \<Rightarrow> jsval" where
  "objectGet own key =
     (case own key of
        Some v \<Rightarrow> v
      | None \<Rightarrow> (case map_of objectPrototype key of Some v \<Rightarrow> v | None \<Rightarrow> VUndef))"

text \<open>\<^verbatim>\<open>obj[key] = str\<close> on a plain object, for a string \<open>str\<close>.  An own property is
  overwritten.  Otherwise the key \<^verbatim>\<open>__proto__\<close> reaches the inherited accessor, whose
  setter ignores a value that is neither an object nor \<^verbatim>\<open>null\<close>: nothing is stored and
  nothing is thrown.  Every other key becomes an own property (the inherited functions are
  writable data properties, which an assignment shadows).\<close>

definition objectSetString :: "(string \<rightharpoonup> jsval) \<Rightarrow> string \<Rightarrow> string \<Rightarrow> (string \<rightharpoonup> jsval)" where
  "objectSetString own key str =
     (if own key = None \<and> key = ''__proto__'' then own else own(key \<mapsto> VStr str))"

text \<open>\<^verbatim>\<open>this.syncState[key]\<close>\<close>

definition lookupSync :: "dbt44 \<Rightarrow> string \<Rightarrow> jsval" where
  "lookupSync s key = objectGet (syncState s) key"

text \<open>\<^verbatim>\<open>storeSyncValue(variableId, value)\<close>: the assignment, then the definition is
  registered unless one with this id is there already.\<close>

definition storeSyncValue :: "dbt44 \<Rightarrow> string \<Rightarrow> jsval \<Rightarrow> dbt44" where
  "storeSyncValue s variableId v =
     (if variableId = [] then s
      else s\<lparr>syncState := objectSetString (syncState s) variableId (formatSyncValue v),
             syncVariableDefs :=
               (if variableId \<in> set (syncVariableDefs s) then syncVariableDefs s
                else syncVariableDefs s @ [variableId])\<rparr>)"

definition updateStatus :: "string \<Rightarrow> string \<Rightarrow> dbt44 \<Rightarrow> dbt44" where
  "updateStatus st label s = s\<lparr>status := Some (st, label)\<rparr>"


section \<open>Inbound messages\<close>

text \<open>The value an inbound message carries: \<^verbatim>\<open>true\<close> or \<^verbatim>\<open>false\<close> for a first argument
  tagged \<open>T\<close> or \<open>F\<close>, else the first argument's value, and the empty string when there is
  no argument.\<close>

definition firstArgValue :: "oscarg list \<Rightarrow> jsval" where
  "firstArgValue args =
     (case args of
        [] \<Rightarrow> VStr []
      | a # _ \<Rightarrow>
          if argType a = ''T'' then VBool True
          else if argType a = ''F'' then VBool False
          else argValue a)"

text \<open>\<^verbatim>\<open>handleOscMessage(packet)\<close> for a packet with address \<open>path\<close> and arguments
  \<open>args\<close>; the boolean is the return value.\<close>

definition handleOscMessage :: "dbt44 \<Rightarrow> string \<Rightarrow> oscarg list \<Rightarrow> dbt44 \<times> bool" where
  "handleOscMessage s0 path args =
     (let name = deviceName (config s0);
          s = updateStatus ''ok'' (if name = [] then ''Connected'' else name) s0;
          variableId = pathToVariableId (config s) path;
          pingPath = oscPath (config s) ''/ping'';
          isPing = (path = ''/ping'' \<or> (pingPath \<noteq> None \<and> Some path = pingPath));
          willStore = (variableId \<noteq> None \<and> variableId \<noteq> Some [] \<and> \<not> isPing)
      in if willStore then (storeSyncValue s (the variableId) (firstArgValue args), True)
         else (s, False))"

section \<open>Actions\<close>


text \<open>The keys and logical paths the callbacks build with template literals, such as
  \<^verbatim>\<open>`gain_input_${inIdx}_${outIdx}`\<close> and \<^verbatim>\<open>`/gain/input/${inIdx}/${outIdx}`\<close>.\<close>

definition gainInputKey :: "jsnum \<Rightarrow> jsnum \<Rightarrow> string" where
  "gainInputKey inIdx outIdx = ''gain_input_'' @ numToString inIdx @ ''_'' @ numToString outIdx"

definition gainInputPath :: "jsnum \<Rightarrow> jsnum \<Rightarrow> string" where
  "gainInputPath inIdx outIdx = ''/gain/input/'' @ numToString inIdx @ ''/'' @ numToString outIdx"


definition gainOutputKey :: "jsnum \<Rightarrow> string" where
  "gainOutputKey outIdx = ''gain_output_'' @ numToString outIdx"

definition gainOutputPath :: "jsnum \<Rightarrow> string" where
  "gainOutputPath outIdx = ''/gain/output/'' @ numToString outIdx"

definition muteInputKey :: "jsnum \<Rightarrow> string" where
  "muteInputKey inIdx = ''mute_input_'' @ numToString inIdx"

definition muteInputPath :: "jsnum \<Rightarrow> string" where
  "muteInputPath inIdx = ''/mute/input/'' @ numToString inIdx"

definition muteOutputKey :: "jsnum \<Rightarrow> string" where
  "muteOutputKey outIdx = ''mute_output_'' @ numToString outIdx"

definition muteOutputPath :: "jsnum \<Rightarrow> string" where
  "muteOutputPath outIdx = ''/mute/output/'' @ numToString outIdx"



definition floatArg :: "jsnum \<Rightarrow> oscarg" where
  "floatArg v = \<lparr>argType = ''f'', argValue = VNum v\<rparr>"





definition muteArg :: "bool \<Rightarrow> oscarg" where
  "muteArg mute = (if mute then \<lparr>argType = ''T'', argValue = VUndef\<rparr>
                   else \<lparr>argType = ''F'', argValue = VUndef\<rparr>)"



section \<open>The specification's clamp and ceil4\<close>


text \<open>\<open>ceil4(n)\<close> as the specification uses it: \<open>n\<close> rounded up to a multiple of four.\<close>

definition ceil4 :: "nat \<Rightarrow> nat" where
  "ceil4 n = 4 * ((n + 3) div 4)"

section \<open>OSC packets and the codec interface\<close>

text \<open>
  A decoded packet is a message (address and arguments) or a bundle of packets.  The module
  decodes and encodes with the \<^verbatim>\<open>osc\<close> package, which is not part of its sources; the
  transport functions below take it as a parameter: \<open>readPacket metadata buffer\<close> stands for
  \<^verbatim>\<open>osc.readPacket(buffer, {metadata})\<close> and \<open>writePacketLength packet\<close> for
  \<^verbatim>\<open>osc.writePacket(packet).length\<close>, with \<open>None\<close> where the call throws.  Without
  metadata the library returns bare argument values; the module hands that packet straight
  back to \<^verbatim>\<open>writePacket\<close> and reads nothing from it, so one packet type serves both calls.
\<close>

datatype packet = Message string "oscarg list" | Bundle "packet list"

record osc_lib =
  readPacket :: "bool \<Rightarrow> byte list \<Rightarrow> packet option"
  writePacketLength :: "packet \<Rightarrow> nat option"

section \<open>Frame lengths\<close>

text \<open>\<^verbatim>\<open>getCompleteMessageLength(buffer)\<close>: the \<^verbatim>\<open>try\<close> block covers both calls, and the
  \<^verbatim>\<open>catch\<close> returns \<^verbatim>\<open>buffer.length + 1\<close>.\<close>

definition getCompleteMessageLength :: "osc_lib \<Rightarrow> byte list \<Rightarrow> nat" where
  "getCompleteMessageLength L buffer =
     (case readPacket L False buffer of
        None \<Rightarrow> length buffer + 1
      | Some packet \<Rightarrow>
          (case writePacketLength L packet of
             None \<Rightarrow> length buffer + 1
           | Some n \<Rightarrow> n))"

text \<open>\<^verbatim>\<open>buffer.indexOf(0)\<close>: the index of the first zero byte, or -1.\<close>

definition indexOfZero :: "byte list \<Rightarrow> int" where
  "indexOfZero buffer =
     (if 0 \<in> set buffer then int (length (takeWhile (\<lambda>b. b \<noteq> 0) buffer)) else - 1)"

text \<open>\<^verbatim>\<open>buffer.toString('utf8', 0, n)\<close>, byte by byte.  On ASCII bytes this is the UTF-8
  decoding; a byte from \<open>0x80\<close> on decodes to characters outside ASCII in either reading, so
  the test for a printable path below has the same outcome.\<close>

definition bytesToString :: "byte list \<Rightarrow> string" where
  "bytesToString bs = map (\<lambda>b. char_of (uint b)) bs"

text \<open>The regular expression \<^verbatim>\<open>/^\/[\x20-\x7e]+$/\<close>.\<close>

definition isPrintablePath :: "string \<Rightarrow> bool" where
  "isPrintablePath p =
     (case p of
        [] \<Rightarrow> False
      | c # r \<Rightarrow> c = CHR ''/'' \<and> r \<noteq> [] \<and>
                 list_all (\<lambda>ch. 0x20 \<le> (of_char ch :: int) \<and> (of_char ch :: int) \<le> 0x7e) r)"

text \<open>\<^verbatim>\<open>(n + 3) & ~3\<close>: the bitwise operators work on 32-bit two's complement.\<close>

definition align4 :: "int \<Rightarrow> int" where
  "align4 n = sint ((word_of_int (n + 3) :: 32 word) AND NOT 3)"

text \<open>\<^verbatim>\<open>parsePathOnlyOsc(buffer)\<close>; \<open>None\<close> is the source's \<^verbatim>\<open>null\<close>.\<close>

definition parsePathOnlyOsc :: "byte list \<Rightarrow> (string \<times> int) option" where
  "parsePathOnlyOsc buffer =
     (if length buffer < 2 then None
      else if hd buffer \<noteq> 0x2f then None
      else
        let nullIdx = indexOfZero buffer
        in if nullIdx < 1 then None
           else
             let path = bytesToString (take (nat nullIdx) buffer)
             in if isPrintablePath path then
                  let byteLength = align4 (nullIdx + 1)
                  in if byteLength > int (length buffer) then None
                     else Some (path, byteLength)
                else None)"

section \<open>Stream reassembly\<close>

text \<open>\<^verbatim>\<open>buffer.slice(start, end)\<close>: a negative index counts from the end, and both are
  clipped to the buffer.\<close>

definition bufSlice :: "byte list \<Rightarrow> int \<Rightarrow> int \<Rightarrow> byte list" where
  "bufSlice b start stop =
     (let n = int (length b);
          s = (if start < 0 then max (n + start) 0 else min start n);
          e = (if stop < 0 then max (n + stop) 0 else min stop n)
      in take (nat (e - s)) (drop (nat s) b))"

text \<open>What \<^verbatim>\<open>parseOscIncoming\<close> does with a decoded packet: a message with a (non-empty)
  address is handled; of a bundle, each element that is such a message is handled in order;
  the boolean tells whether any of them was stored.\<close>

definition handleElement :: "dbt44 \<times> bool \<Rightarrow> packet \<Rightarrow> dbt44 \<times> bool" where
  "handleElement acc p =
     (case p of
        Message address args \<Rightarrow>
          if address \<noteq> [] then
            (let r = handleOscMessage (fst acc) address args in (fst r, snd r \<or> snd acc))
          else acc
      | Bundle _ \<Rightarrow> acc)"

definition dispatchPacket :: "dbt44 \<Rightarrow> packet \<Rightarrow> dbt44 \<times> bool" where
  "dispatchPacket s packet =
     (case packet of
        Message address args \<Rightarrow> handleElement (s, False) packet
      | Bundle packets \<Rightarrow> foldl handleElement (s, False) packets)"

text \<open>One pass through the body of the \<^verbatim>\<open>while\<close> loop of \<^verbatim>\<open>parseOscIncoming\<close>: \<open>None\<close>
  is the \<^verbatim>\<open>break\<close>, otherwise the instance after the frame was cut off the buffer and
  dispatched, and whether a value was stored.\<close>

definition parseFrame :: "osc_lib \<Rightarrow> dbt44 \<Rightarrow> (dbt44 \<times> bool) option" where
  "parseFrame L s =
     (let buf = receiveBuffer s;
          len = int (length buf);
          messageLength0 = int (getCompleteMessageLength L buf);
          packet0 = (if messageLength0 \<le> len then readPacket L True (bufSlice buf 0 messageLength0)
                     else None);
          pathOnly = (if packet0 = None \<and> 4 \<le> len then parsePathOnlyOsc buf else None);
          messageLength = (case pathOnly of Some (p, n) \<Rightarrow> n | None \<Rightarrow> messageLength0);
          packet = (case pathOnly of Some (p, n) \<Rightarrow> Some (Message p []) | None \<Rightarrow> packet0)
      in if messageLength > len then None
         else
           let s1 = s\<lparr>receiveBuffer := bufSlice buf messageLength len\<rparr>
           in Some (case packet of Some p \<Rightarrow> dispatchPacket s1 p | None \<Rightarrow> (s1, False)))"

text \<open>The loop.  It need not terminate for every library (a frame length of 0 would cut
  nothing off), so not returning is the value \<open>None\<close>.\<close>

partial_function (option) parseLoop :: "osc_lib \<Rightarrow> dbt44 \<Rightarrow> bool \<Rightarrow> (dbt44 \<times> bool) option" where
  "parseLoop L s hadSyncMessage =
     (if 0 < length (receiveBuffer s) then
        (case parseFrame L s of
           None \<Rightarrow> Some (s, hadSyncMessage)
         | Some r \<Rightarrow> parseLoop L (fst r) (snd r \<or> hadSyncMessage))
      else Some (s, hadSyncMessage))"

declare parseLoop.simps [code]

text \<open>\<^verbatim>\<open>parseOscIncoming()\<close>; the closing \<^verbatim>\<open>applySyncVariables\<close> publishes to the host and
  changes no field.\<close>

definition parseOscIncoming :: "osc_lib \<Rightarrow> dbt44 \<Rightarrow> dbt44 option" where
  "parseOscIncoming L s = map_option fst (parseLoop L s False)"

text \<open>The socket's \<^verbatim>\<open>message\<close> handler: status, append, reassemble.\<close>

definition onDatagram :: "osc_lib \<Rightarrow> dbt44 \<Rightarrow> byte list \<Rightarrow> dbt44 option" where
  "onDatagram L s msg =
     (let name = deviceName (config s);
          s1 = updateStatus ''ok'' (if name = [] then ''Connected'' else name) s
      in parseOscIncoming L (s1\<lparr>receiveBuffer := receiveBuffer s1 @ msg\<rparr>))"

section \<open>A model of the standard codec\<close>

text \<open>
  Modelled from the spec: the standard decode and the encoded length of the OSC codec, which
  the module delegates to \<^verbatim>\<open>osc.readPacket\<close> and \<^verbatim>\<open>osc.writePacket\<close> of the \<^verbatim>\<open>osc\<close> package
  (absent from the sources).  After section 4.1: a message is a null-terminated address
  string padded to four bytes, a type-tag string (a comma and one letter per argument:
  \<open>f\<close> float32, \<open>T\<close> and \<open>F\<close> booleans without payload), then four bytes per float; a bundle
  holds messages, one level only.  Anything else does not decode.  Bytes after the first
  message are ignored by the decode, which is why the module asks for the length of the
  re-encoded packet.
\<close>

text \<open>Modelled from the spec: the padding of the codec's strings to a 4-byte boundary.\<close>

definition pad4 :: "nat \<Rightarrow> nat" where
  "pad4 n = ((n + 3) div 4) * 4"

text \<open>Modelled from the spec: reading one null-terminated, padded string of the codec; the
  rest of the buffer is returned with it.\<close>

definition readOscString :: "byte list \<Rightarrow> (string \<times> byte list) option" where
  "readOscString bs =
     (if 0 \<in> set bs then
        let str = takeWhile (\<lambda>b. b \<noteq> 0) bs;
            n = pad4 (length str + 1)
        in if n \<le> length bs then Some (bytesToString str, drop n bs) else None
      else None)"

text \<open>Modelled from the spec: the codec's big-endian 32-bit fields.\<close>

definition be32 :: "byte list \<Rightarrow> 32 word" where
  "be32 bs = foldl (\<lambda>acc b. push_bit 8 acc OR ucast b) 0 (take 4 bs)"

text \<open>Modelled from the spec: powers of two for the float32 value.\<close>

definition pow2 :: "int \<Rightarrow> rat" where
  "pow2 e = (if 0 \<le> e then 2 ^ nat e else 1 / 2 ^ nat (- e))"

text \<open>Modelled from the spec: the value of the codec's float32 argument, an IEEE 754
  single.\<close>

definition float32Value :: "32 word \<Rightarrow> jsnum" where
  "float32Value w =
     (let neg = bit w 31;
          e = uint (drop_bit 23 w AND 0xFF);
          m = uint (w AND 0x7FFFFF);
          sg = (if neg then - 1 else 1)
      in if e = 255 then (if m = 0 then (if neg then NInf else PInf) else NaN)
         else if e = 0 then Fin (sg * of_int m * pow2 (- 149))
         else Fin (sg * of_int (m + 2 ^ 23) * pow2 (e - 150)))"

text \<open>Modelled from the spec: the codec's arguments, one per tag letter.\<close>

fun readArgs :: "string \<Rightarrow> byte list \<Rightarrow> (oscarg list \<times> byte list) option" where
  "readArgs [] bs = Some ([], bs)"
| "readArgs (t # ts) bs =
     (if t = CHR ''f'' then
        (if length bs < 4 then None
         else map_option
                (\<lambda>r. (\<lparr>argType = ''f'', argValue = VNum (float32Value (be32 bs))\<rparr> # fst r, snd r))
                (readArgs ts (drop 4 bs)))
      else if t = CHR ''T'' then
        map_option (\<lambda>r. (\<lparr>argType = ''T'', argValue = VBool True\<rparr> # fst r, snd r)) (readArgs ts bs)
      else if t = CHR ''F'' then
        map_option (\<lambda>r. (\<lparr>argType = ''F'', argValue = VBool False\<rparr> # fst r, snd r)) (readArgs ts bs)
      else None)"

text \<open>Modelled from the spec: the codec's decode of one message.\<close>

definition readMessage :: "byte list \<Rightarrow> packet option" where
  "readMessage bs =
     (case readOscString bs of
        None \<Rightarrow> None
      | Some a \<Rightarrow>
          if startsWith (fst a) ''/'' then
            (case readOscString (snd a) of
               None \<Rightarrow> None
             | Some t \<Rightarrow>
                 if startsWith (fst t) '','' then
                   map_option (\<lambda>r. Message (fst a) (fst r)) (readArgs (tl (fst t)) (snd t))
                 else None)
          else None)"

text \<open>Modelled from the spec: the elements of the codec's bundle, each a big-endian size and
  then a message of that many bytes.\<close>

function readElements :: "byte list \<Rightarrow> packet list option" where
  "readElements bs =
     (if bs = [] then Some []
      else if length bs < 4 then None
      else
        let n = nat (uint (be32 bs))
        in if length bs < 4 + n then None
           else (case readMessage (take n (drop 4 bs)) of
                   None \<Rightarrow> None
                 | Some m \<Rightarrow> map_option (\<lambda>ms. m # ms) (readElements (drop (4 + n) bs))))"
  by pat_completeness auto
termination
  by (relation "measure length") auto

declare readElements.simps [simp del]

text \<open>Modelled from the spec: the codec's bundle marker, the string \<open>#bundle\<close> and a zero
  byte; eight bytes of time tag follow it.\<close>

definition bundleHeader :: "byte list" where
  "bundleHeader = [0x23, 0x62, 0x75, 0x6e, 0x64, 0x6c, 0x65, 0x00]"

text \<open>Modelled from the spec: the codec's standard decode (\<^verbatim>\<open>osc.readPacket\<close>).\<close>

definition osc_readPacket :: "byte list \<Rightarrow> packet option" where
  "osc_readPacket bs =
     (if take 8 bs = bundleHeader then
        (if length bs < 16 then None else map_option Bundle (readElements (drop 16 bs)))
      else readMessage bs)"

text \<open>Modelled from the spec: the length of the codec's encoding of a packet
  (\<^verbatim>\<open>osc.writePacket(packet).length\<close>).\<close>

fun osc_packetLength :: "packet \<Rightarrow> nat" where
  "osc_packetLength (Message address args) =
     pad4 (length address + 1) + pad4 (length args + 2) +
     4 * length (filter (\<lambda>a. argType a = ''f'') args)"
| "osc_packetLength (Bundle packets) = 16 + sum_list (map (\<lambda>p. 4 + osc_packetLength p) packets)"

text \<open>Modelled from the spec: the codec as the library interface above; its encoder does
  not throw.\<close>

definition osc_model :: osc_lib where
  "osc_model =
     \<lparr>readPacket = (\<lambda>metadata. osc_readPacket),
      writePacketLength = (\<lambda>p. Some (osc_packetLength p))\<rparr>"

section \<open>Example fixtures\<close>

text \<open>A configured instance for the device name \<open>unit1\<close>, freshly connected: nothing stored,
  nothing saved, nothing sent yet.\<close>

definition exampleConfig :: config where
  "exampleConfig =
     \<lparr>host = ''10.0.0.5'', device_name = Some ''unit1'', targetPort = ''9000'',
      feedbackPort = ''9001''\<rparr>"

definition exampleInstance :: dbt44 where
  "exampleInstance =
     \<lparr>config = exampleConfig, targetHost = Some ''10.0.0.5'', receiveBuffer = [],
      syncState = Map.empty, syncVariableDefs = [], savedMatrixGain = Map.empty,
      status = None, sent = []\<rparr>"


text \<open>\<^verbatim>\<open>Buffer.from(s, 'latin1')\<close>, to write example buffers as text.\<close>

definition bytesOf :: "string \<Rightarrow> byte list" where
  "bytesOf s = map (\<lambda>c. of_char c) s"

text \<open>The device's echo of a ping: the address and one zero byte, twelve bytes in all.\<close>

definition pingFrame :: "byte list" where
  "pingFrame = bytesOf ''/ping/unit1'' @ [0]"

text \<open>A standard message with one float argument (-2) for the crosspoint from input 2 to
  output 5: 32 bytes.\<close>

definition gainFrame :: "byte list" where
  "gainFrame =
     bytesOf ''/gain/input/2/5/unit1'' @ [0, 0, 0] @ bytesOf '',f'' @ [0, 0] @ [0xC0, 0, 0, 0]"

text \<open>A standard message with one float argument (1.5) for the address
  \<open>/__proto__/unit1\<close>: 28 bytes.\<close>

definition protoFrame :: "byte list" where
  "protoFrame =
     bytesOf ''/__proto__/unit1'' @ [0, 0, 0, 0] @ bytesOf '',f'' @ [0, 0] @ [0x3F, 0xC0, 0, 0]"

text \<open>Five bytes that start neither a message nor a bundle.\<close>

definition garbage :: "byte list" where
  "garbage = bytesOf ''ABCDE''"

text \<open>A lone slash, padded to four bytes.\<close>

definition slashFrame :: "byte list" where
  "slashFrame = [0x2f, 0, 0, 0]"

text \<open>The example instance with the bytes \<open>buf\<close> waiting in its receive buffer.\<close>

definition instanceWith :: "byte list \<Rightarrow> dbt44" where
  "instanceWith buf = exampleInstance\<lparr>receiveBuffer := buf\<rparr>"

section \<open>Address round trip\<close>

lemma endsWith_append: "endsWith (b @ t) t"
  by (simp add: endsWith_def)

lemma deviceName_exampleConfig: "deviceName exampleConfig = ''unit1''"
  by code_simp

lemma pathToVariableId_append_name:
  assumes "deviceName cfg \<noteq> []"
  shows "pathToVariableId cfg (b @ ''/'' @ deviceName cfg) =
           Some (slashToUnderscore (if startsWith b ''/'' then tl b else b))"
proof -
  let ?d = "deviceName cfg"
  have e: "endsWith (b @ ''/'' @ ?d) (''/'' @ ?d)" by (rule endsWith_append)
  have t: "take (length (b @ ''/'' @ ?d) - length ?d - 1) (b @ ''/'' @ ?d) = b" by simp
  show ?thesis
    unfolding pathToVariableId_def Let_def using assms e t by simp
qed

text \<open>
  C5.  With a non-empty trimmed device name \<open>d\<close>, \<open>oscPath\<close> turns a logical path \<open>p\<close>
  into \<open>p\<close> (with a \<open>/\<close> put in front when it has none) followed by \<open>/d\<close>, and
  \<open>pathToVariableId\<close> maps that outbound path back to \<open>p\<close> without its leading slash and
  with every other \<open>/\<close> replaced by \<open>_\<close>.  With the device name \<open>unit1\<close>, the path
  \<open>/gain/input/2/5/unit1\<close> maps to \<open>gain_input_2_5\<close>.
\<close>

theorem oscPath_roundtrip:
  "deviceName cfg \<noteq> [] \<Longrightarrow>
     oscPath cfg p = Some ((if startsWith p ''/'' then p else ''/'' @ p) @ ''/'' @ deviceName cfg) \<and>
     pathToVariableId cfg (the (oscPath cfg p)) =
       Some (slashToUnderscore (if startsWith p ''/'' then tl p else p)) \<and>
     pathToVariableId exampleConfig ''/gain/input/2/5/unit1'' = Some ''gain_input_2_5''"
proof (intro conjI)
  assume d: "deviceName cfg \<noteq> []"
  show o: "oscPath cfg p = Some ((if startsWith p ''/'' then p else ''/'' @ p) @ ''/'' @ deviceName cfg)"
    using d by (simp add: oscPath_def Let_def)
  show "pathToVariableId cfg (the (oscPath cfg p)) =
       Some (slashToUnderscore (if startsWith p ''/'' then tl p else p))"
    using pathToVariableId_append_name [OF d, of "if startsWith p ''/'' then p else ''/'' @ p"]
    by (simp add: o startsWith_def)
  show "pathToVariableId exampleConfig ''/gain/input/2/5/unit1'' = Some ''gain_input_2_5''"
    by (simp add: pathToVariableId_def deviceName_exampleConfig endsWith_def
        startsWith_def slashToUnderscore_def)
qed

theorem oscPath_roundtrip_witness:
  "deviceName exampleConfig \<noteq> [] \<and>
   oscPath exampleConfig ''mute/input/3'' = Some ''/mute/input/3/unit1'' \<and>
   pathToVariableId exampleConfig ''/mute/input/3/unit1'' = Some ''mute_input_3''"
proof -
  have h: "deviceName exampleConfig \<noteq> []" by (simp add: deviceName_exampleConfig)
  show ?thesis
    using h oscPath_roundtrip [OF h, of "''mute/input/3''"]
    by (auto simp: deviceName_exampleConfig startsWith_def slashToUnderscore_def)
qed

section \<open>Effects of the state operations, field by field\<close>




lemma storeSyncValue_stored:
  "k \<noteq> [] \<Longrightarrow> k \<noteq> ''__proto__'' \<Longrightarrow>
     syncState (storeSyncValue s k v) k = Some (VStr (formatSyncValue v))"
  by (simp add: storeSyncValue_def objectSetString_def)

lemma storeSyncValue_others:
  "j \<noteq> k \<Longrightarrow> syncState (storeSyncValue s k v) j = syncState s j"
  by (simp add: storeSyncValue_def objectSetString_def)

text \<open>An assignment to \<^verbatim>\<open>__proto__\<close> stores nothing, yet the definition is registered.\<close>

lemma storeSyncValue_proto:
  assumes "syncState s ''__proto__'' = None"
  shows "syncState (storeSyncValue s ''__proto__'' v) = syncState s"
    and "''__proto__'' \<in> set (syncVariableDefs (storeSyncValue s ''__proto__'' v))"
    and "lookupSync (storeSyncValue s ''__proto__'' v) ''__proto__'' = VObj ''[object Object]''"
  using assms by (simp_all add: storeSyncValue_def objectSetString_def lookupSync_def objectGet_def
      objectPrototype_def)

lemma storeSyncValue_registered:
  "k \<noteq> [] \<Longrightarrow> k \<in> set (syncVariableDefs (storeSyncValue s k v))"
  by (simp add: storeSyncValue_def)






lemma formatSyncValue_empty: "formatSyncValue (VStr []) = ''0''"
  by code_simp



lemma keys_not_proto [simp]:
  "gainInputKey i j \<noteq> ''__proto__''" "gainOutputKey j \<noteq> ''__proto__''"
  "muteInputKey i \<noteq> ''__proto__''" "muteOutputKey j \<noteq> ''__proto__''"
  by (simp_all add: gainInputKey_def gainOutputKey_def muteInputKey_def muteOutputKey_def)

lemma keys_nonempty [simp]:
  "gainInputKey i j \<noteq> []" "gainOutputKey j \<noteq> []" "muteInputKey i \<noteq> []" "muteOutputKey j \<noteq> []"
  by (simp_all add: gainInputKey_def gainOutputKey_def muteInputKey_def muteOutputKey_def)

lemma paths_slash [simp]:
  "startsWith (gainInputPath i j) ''/''" "startsWith (gainOutputPath j) ''/''"
  "startsWith (muteInputPath i) ''/''" "startsWith (muteOutputPath j) ''/''"
  by (simp_all add: startsWith_def gainInputPath_def gainOutputPath_def muteInputPath_def
      muteOutputPath_def)

section \<open>Inbound messages\<close>

lemma handleOscMessage_skip:
  assumes "path = ''/ping'' \<or> oscPath (config s) ''/ping'' = Some path"
  shows "handleOscMessage s path args =
           (s\<lparr>status := Some (''ok'', if deviceName (config s) = [] then ''Connected''
                                     else deviceName (config s))\<rparr>, False)"
  using assms by (auto simp: handleOscMessage_def updateStatus_def Let_def)

lemma handleOscMessage_store:
  assumes "path \<noteq> ''/ping''" and "oscPath (config s) ''/ping'' \<noteq> Some path"
    and "pathToVariableId (config s) path = Some vid" and "vid \<noteq> []"
  shows "handleOscMessage s path args =
           (storeSyncValue
              (s\<lparr>status := Some (''ok'', if deviceName (config s) = [] then ''Connected''
                                        else deviceName (config s))\<rparr>)
              vid (firstArgValue args), True)"
  using assms by (auto simp: handleOscMessage_def updateStatus_def Let_def)

lemma oscPath_ping:
  "deviceName cfg \<noteq> [] \<Longrightarrow> oscPath cfg ''/ping'' = Some (''/ping/'' @ deviceName cfg)"
  by (simp add: oscPath_def Let_def startsWith_def)

lemma config_exampleInstance: "config exampleInstance = exampleConfig"
  by (simp add: exampleInstance_def)

lemma oscPath_ping_example: "oscPath exampleConfig ''/ping'' = Some ''/ping/unit1''"
  by code_simp

text \<open>A ping echo is never stored: only the connection status changes.\<close>

lemma handleOscMessage_ping_skipped:
  assumes "path = ''/ping'' \<or> (deviceName (config s) \<noteq> [] \<and> path = ''/ping/'' @ deviceName (config s))"
  shows "snd (handleOscMessage s path args) = False"
    and "syncState (fst (handleOscMessage s path args)) = syncState s"
    and "syncVariableDefs (fst (handleOscMessage s path args)) = syncVariableDefs s"
    and "status (fst (handleOscMessage s path args)) =
           Some (''ok'', if deviceName (config s) = [] then ''Connected'' else deviceName (config s))"
proof -
  have p: "path = ''/ping'' \<or> oscPath (config s) ''/ping'' = Some path"
    using assms oscPath_ping [of "config s"] by auto
  note r = handleOscMessage_skip [OF p, of args]
  show "snd (handleOscMessage s path args) = False" by (simp add: r)
  show "syncState (fst (handleOscMessage s path args)) = syncState s" by (simp add: r)
  show "syncVariableDefs (fst (handleOscMessage s path args)) = syncVariableDefs s" by (simp add: r)
  show "status (fst (handleOscMessage s path args)) =
          Some (''ok'', if deviceName (config s) = [] then ''Connected'' else deviceName (config s))"
    by (simp add: r)
qed

text \<open>Any other message with an identifier is registered, and the result is true; its
  value is stored under the identifier unless the identifier is \<^verbatim>\<open>__proto__\<close>.\<close>

lemma handleOscMessage_other:
  assumes "path \<noteq> ''/ping''" and "oscPath (config s) ''/ping'' \<noteq> Some path"
    and "pathToVariableId (config s) path = Some vid" and "vid \<noteq> []"
  shows "snd (handleOscMessage s path args) = True"
    and "vid \<in> set (syncVariableDefs (fst (handleOscMessage s path args)))"
    and "vid \<noteq> ''__proto__'' \<Longrightarrow>
           syncState (fst (handleOscMessage s path args)) vid =
             Some (VStr (formatSyncValue (firstArgValue args)))"
    and "vid = ''__proto__'' \<Longrightarrow> syncState s vid = None \<Longrightarrow>
           syncState (fst (handleOscMessage s path args)) = syncState s"
proof -
  note r = handleOscMessage_store [OF assms, of args]
  show "snd (handleOscMessage s path args) = True" by (simp add: r)
  show "vid \<in> set (syncVariableDefs (fst (handleOscMessage s path args)))"
    by (simp add: r storeSyncValue_registered [OF assms(4)])
  show "syncState (fst (handleOscMessage s path args)) vid =
          Some (VStr (formatSyncValue (firstArgValue args)))" if "vid \<noteq> ''__proto__''"
    by (simp add: r storeSyncValue_stored [OF assms(4) that])
  show "syncState (fst (handleOscMessage s path args)) = syncState s"
    if "vid = ''__proto__''" "syncState s vid = None"
    using that by (simp add: r storeSyncValue_proto(1))
qed

lemma handleOscMessage_examples:
  "snd (handleOscMessage exampleInstance ''/ping/unit1'' []) = False"
  "syncVariableDefs (fst (handleOscMessage exampleInstance ''/ping/unit1'' [])) = []"
  "status (fst (handleOscMessage exampleInstance ''/ping/unit1'' [])) = Some (''ok'', ''unit1'')"
  "snd (handleOscMessage exampleInstance ''/mute/input/3/unit1'' [muteArg True]) = True"
  "syncState (fst (handleOscMessage exampleInstance ''/mute/input/3/unit1'' [muteArg True]))
     ''mute_input_3'' = Some (VStr ''1'')"
  "syncState (fst (handleOscMessage exampleInstance ''/gain/input/1/2/unit1'' []))
     ''gain_input_1_2'' = Some (VStr ''0'')"
  by code_simp+

text \<open>The address \<open>/__proto__/unit1\<close> arrives like any other: the loop decodes the 28-byte
  datagram, consumes it and hands it to \<open>handleOscMessage\<close>.\<close>

lemma proto_datagram:
  "map_option receiveBuffer (parseOscIncoming osc_model (instanceWith protoFrame)) = Some []"
  "syncVariableDefs (the (parseOscIncoming osc_model (instanceWith protoFrame))) = [''__proto__'']"
  "syncState (the (parseOscIncoming osc_model (instanceWith protoFrame))) ''__proto__'' = None"
  by code_simp+

text \<open>
  C9.  A ping echo (address \<open>/ping\<close>, or \<open>/ping/\<close> and the device name) makes
  \<open>handleOscMessage\<close> return false and changes nothing but the status, as the claim says.
  Its other half, that every other message with a derivable variable identifier is stored,
  does not hold of the code.  For the device name \<open>unit1\<close>, the message
  \<open>/__proto__/unit1\<close> with the float 1.5 is no ping and has the identifier
  \<^verbatim>\<open>__proto__\<close>; \<open>handleOscMessage\<close> returns true for it and registers a variable
  definition for \<^verbatim>\<open>__proto__\<close>, but the value \<open>"1.5"\<close> is not stored: the state store
  has the same own properties as before, and reading the key gives \<^verbatim>\<open>Object.prototype\<close>.
\<close>

theorem handleOscMessage_proto_not_stored:
  "pathToVariableId exampleConfig ''/__proto__/unit1'' = Some ''__proto__'' \<and>
   formatSyncValue (firstArgValue [floatArg (Fin (3 / 2))]) = ''1.5'' \<and>
   snd (handleOscMessage exampleInstance ''/__proto__/unit1'' [floatArg (Fin (3 / 2))]) = True \<and>
   syncVariableDefs (fst (handleOscMessage exampleInstance ''/__proto__/unit1''
     [floatArg (Fin (3 / 2))])) = [''__proto__''] \<and>
   syncState (fst (handleOscMessage exampleInstance ''/__proto__/unit1''
     [floatArg (Fin (3 / 2))])) = syncState exampleInstance \<and>
   syncState (fst (handleOscMessage exampleInstance ''/__proto__/unit1''
     [floatArg (Fin (3 / 2))])) ''__proto__'' = None \<and>
   lookupSync (fst (handleOscMessage exampleInstance ''/__proto__/unit1''
     [floatArg (Fin (3 / 2))])) ''__proto__'' = VObj ''[object Object]''"
proof -
  let ?r = "handleOscMessage exampleInstance ''/__proto__/unit1'' [floatArg (Fin (3 / 2))]"
  have v: "pathToVariableId exampleConfig ''/__proto__/unit1'' = Some ''__proto__''"
    by code_simp
  have f: "formatSyncValue (firstArgValue [floatArg (Fin (3 / 2))]) = ''1.5''"
    by code_simp
  have t: "snd ?r = True" by code_simp
  have d: "syncVariableDefs (fst ?r) = [''__proto__'']" by code_simp
  have e: "syncState exampleInstance ''__proto__'' = None" by (simp add: exampleInstance_def)
  have p: "''/__proto__/unit1'' \<noteq> ''/ping''"
    "oscPath (config exampleInstance) ''/ping'' \<noteq> Some ''/__proto__/unit1''"
    "pathToVariableId (config exampleInstance) ''/__proto__/unit1'' = Some ''__proto__''"
    "''__proto__'' \<noteq> []"
    by (simp_all add: config_exampleInstance oscPath_ping_example v)
  have s: "syncState (fst ?r) = syncState exampleInstance"
    using handleOscMessage_other(4) [OF p refl e] .
  have n: "syncState (fst ?r) ''__proto__'' = None" by (simp add: s e)
  have l: "lookupSync (fst ?r) ''__proto__'' = VObj ''[object Object]''" by code_simp
  show ?thesis using v f t d s n l by blast
qed

text \<open>
  C10.  \<open>formatSyncValue\<close> of the empty string is \<open>"0"\<close>: the empty string coerces to the
  number 0, and a message without arguments carries the empty string.  That such a message
  then stores \<open>"0"\<close> under its variable identifier does not hold for every message: for
  \<open>/__proto__/unit1\<close> without arguments \<open>handleOscMessage\<close> returns true and registers
  \<^verbatim>\<open>__proto__\<close>, but the assignment of \<open>"0"\<close> to that key stores nothing.
\<close>

theorem no_args_proto_not_stored:
  "firstArgValue [] = VStr [] \<and>
   formatSyncValue (VStr []) = ''0'' \<and>
   snd (handleOscMessage exampleInstance ''/__proto__/unit1'' []) = True \<and>
   syncVariableDefs (fst (handleOscMessage exampleInstance ''/__proto__/unit1'' [])) =
     [''__proto__''] \<and>
   syncState (fst (handleOscMessage exampleInstance ''/__proto__/unit1'' [])) =
     syncState exampleInstance \<and>
   syncState (fst (handleOscMessage exampleInstance ''/__proto__/unit1'' [])) ''__proto__'' = None \<and>
   lookupSync (fst (handleOscMessage exampleInstance ''/__proto__/unit1'' [])) ''__proto__'' =
     VObj ''[object Object]''"
proof -
  let ?r = "handleOscMessage exampleInstance ''/__proto__/unit1'' []"
  have a: "firstArgValue [] = VStr []" by (simp add: firstArgValue_def)
  have f: "formatSyncValue (VStr []) = ''0''" by (rule formatSyncValue_empty)
  have t: "snd ?r = True" by code_simp
  have d: "syncVariableDefs (fst ?r) = [''__proto__'']" by code_simp
  have e: "syncState exampleInstance ''__proto__'' = None" by (simp add: exampleInstance_def)
  have v: "pathToVariableId exampleConfig ''/__proto__/unit1'' = Some ''__proto__''"
    by code_simp
  have p: "''/__proto__/unit1'' \<noteq> ''/ping''"
    "oscPath (config exampleInstance) ''/ping'' \<noteq> Some ''/__proto__/unit1''"
    "pathToVariableId (config exampleInstance) ''/__proto__/unit1'' = Some ''__proto__''"
    "''__proto__'' \<noteq> []"
    by (simp_all add: config_exampleInstance oscPath_ping_example v)
  have s: "syncState (fst ?r) = syncState exampleInstance"
    using handleOscMessage_other(4) [OF p refl e] .
  have n: "syncState (fst ?r) ''__proto__'' = None" by (simp add: s e)
  have l: "lookupSync (fst ?r) ''__proto__'' = VObj ''[object Object]''" by code_simp
  show ?thesis using a f t d s n l by blast
qed

text \<open>Under every other identifier a message without arguments stores \<open>"0"\<close>.\<close>

lemma handleOscMessage_no_args:
  assumes "path \<noteq> ''/ping''" and "oscPath (config s) ''/ping'' \<noteq> Some path"
    and "pathToVariableId (config s) path = Some vid" and "vid \<noteq> []" and "vid \<noteq> ''__proto__''"
  shows "syncState (fst (handleOscMessage s path [])) vid = Some (VStr ''0'')"
  using handleOscMessage_other(3) [OF assms(1-4), of "[]"] assms(5)
  by (simp add: firstArgValue_def formatSyncValue_empty)

section \<open>Properties of the value formatting\<close>

lemma formatSyncValue_bool:
  "formatSyncValue (VBool True) = ''1''" "formatSyncValue (VBool False) = ''0''"
  by (simp_all add: formatSyncValue_def)

lemma numToString_zero_one: "numToString (Fin 0) = ''0''" "numToString (Fin 1) = ''1''"
  by code_simp+

lemma formatSyncValue_coerced_zero_one:
  "toNumber v = Fin 0 \<Longrightarrow> formatSyncValue v = ''0''"
  "toNumber v = Fin 1 \<Longrightarrow> formatSyncValue v = ''1''"
  by (auto simp: formatSyncValue_def numToString_zero_one toNumber_def)

lemma formatSyncValue_not_numeric:
  assumes "\<And>x. toNumber v \<noteq> Fin x"
  shows "formatSyncValue v = toString v"
proof -
  have "v \<noteq> VBool b" for b using assms [of "if b then 1 else 0"] by (auto simp: toNumber_def)
  then show ?thesis
    using assms by (cases "toNumber v") (auto simp: formatSyncValue_def)
qed

lemma natDigits_nonempty: "natDigits n \<noteq> []"
  by (subst natDigits.simps) simp

lemma digit_char: "k < 10 \<Longrightarrow> isDigit (''0123456789'' ! k)"
proof -
  assume "k < 10"
  then have "k \<in> {0, 1, 2, 3, 4, 5, 6, 7, 8, 9}" by auto
  then show ?thesis by (auto simp: isDigit_def)
qed

lemma natDigits_digits: "list_all isDigit (natDigits n)"
proof (induction n rule: natDigits.induct)
  case (1 n)
  show ?case
  proof (cases "n < 10")
    case True
    then have "nat n < 10" by simp
    then show ?thesis by (subst natDigits.simps) (simp add: True digit_char)
  next
    case False
    have "nat (n mod 10) < 10" by simp
    with False 1 show ?thesis by (subst natDigits.simps) (simp add: digit_char)
  qed
qed

text \<open>Below \<open>10 ^ 21\<close> the result of \<open>toFixed1\<close> ends in a point and exactly one digit.\<close>

lemma toFixed1_shape:
  assumes "\<bar>x\<bar> < 10 ^ 21"
  shows "\<exists>a d. toFixed1 x = a @ ''.'' @ [d] \<and> isDigit d"
proof -
  let ?m = "natDigits \<lfloor>\<bar>x\<bar> * 10 + 1 / 2\<rfloor>"
  let ?m' = "if length ?m \<le> 1 then CHR ''0'' # ?m else ?m"
  have ne: "?m' \<noteq> []" using natDigits_nonempty by simp
  have "list_all isDigit ?m'" using natDigits_digits [of "\<lfloor>\<bar>x\<bar> * 10 + 1 / 2\<rfloor>"] by (simp add: isDigit_def)
  then have "\<forall>c \<in> set ?m'. isDigit c" by (simp only: list_all_iff)
  then have "isDigit (last ?m')" using last_in_set [OF ne] by blast
  moreover have "toFixed1 x = ((if x < 0 then ''-'' else []) @ butlast ?m') @ ''.'' @ [last ?m']"
    using assms by (simp add: toFixed1_def Let_def)
  ultimately show ?thesis by blast
qed

lemma formatSyncValue_one_decimal:
  assumes "toNumber v = Fin x" and "x \<noteq> 0" and "x \<noteq> 1"
    and "\<bar>of_int (mathRound (x * 10)) / 10 :: rat\<bar> < 10 ^ 21"
  shows "\<exists>a d. formatSyncValue v = a @ ''.'' @ [d] \<and> isDigit d"
proof -
  have "v \<noteq> VBool b" for b using assms(1-3) by (auto simp: toNumber_def split: if_splits)
  then have "formatSyncValue v = toFixed1 (of_int (mathRound (x * 10)) / 10)"
    using assms(1-3) by (simp add: formatSyncValue_def)
  then show ?thesis using toFixed1_shape [OF assms(4)] by simp
qed

lemma mathRound_near: "\<bar>of_int (mathRound (x * 10)) / 10 - x\<bar> \<le> 1 / 20"
proof -
  define k :: rat where "k = of_int (mathRound (x * 10))"
  have "k \<le> x * 10 + 1 / 2" "x * 10 + 1 / 2 < k + 1"
    unfolding k_def mathRound_def by linarith+
  then have "- (1 / 20) \<le> k / 10 - x" "k / 10 - x \<le> 1 / 20" by linarith+
  then have "\<bar>k / 10 - x\<bar> \<le> 1 / 20" by (rule_tac abs_leI) linarith+
  then show ?thesis by (simp only: k_def)
qed

lemma formatSyncValue_example: "formatSyncValue (VNum (Fin (- 3456 / 1000))) = ''-3.5''"
  by code_simp

section \<open>Reading a formatted value back\<close>

lemma digitsVal_snoc: "digitsVal (xs @ [c]) = 10 * digitsVal xs + digitVal c"
  by (simp add: digitsVal_def)

lemma digitVal_digit: "k < 10 \<Longrightarrow> digitVal (''0123456789'' ! k) = int k"
proof -
  assume "k < 10"
  then have "k \<in> {0, 1, 2, 3, 4, 5, 6, 7, 8, 9}" by auto
  then show ?thesis by (auto simp: digitVal_def)
qed

lemma digitsVal_natDigits: "0 \<le> n \<Longrightarrow> digitsVal (natDigits n) = n"
proof (induction n rule: natDigits.induct)
  case (1 n)
  show ?case
  proof (cases "n < 10")
    case True
    with 1(2) have "nat n < 10" "int (nat n) = n" by simp_all
    then show ?thesis
      using True digitsVal_snoc [of "[]" "''0123456789'' ! nat n"] digitVal_digit [of "nat n"]
      by (subst natDigits.simps) (simp add: digitsVal_def)
  next
    case False
    then have "0 \<le> n div 10" by simp
    then have ih: "digitsVal (natDigits (n div 10)) = n div 10" using 1(1) False by simp
    have "nat (n mod 10) < 10" "int (nat (n mod 10)) = n mod 10" by simp_all
    then show ?thesis
      using False ih digitVal_digit [of "nat (n mod 10)"]
      by (subst natDigits.simps) (simp add: digitsVal_snoc)
  qed
qed

lemma digitsVal_leading_zero: "digitsVal (CHR ''0'' # ds) = digitsVal ds"
  by (simp add: digitsVal_def digitVal_def)


lemma isDigit_not_special:
  assumes "isDigit c"
  shows "c \<noteq> CHR ''I''" "c \<noteq> CHR ''+''" "c \<noteq> CHR ''-''" "c \<noteq> CHR ''.''" "\<not> isWhiteSpace c"
  using assms by (auto simp: isDigit_def isWhiteSpace_def)

lemma not_isDigit_dot: "\<not> isDigit CHR ''.''"
  by (simp add: isDigit_def)

lemma parseUnsignedDecimal_fixed:
  assumes a: "a \<noteq> []" and da: "list_all isDigit a" and dd: "isDigit d"
  shows "parseUnsignedDecimal (a @ ''.'' @ [d]) =
           Some (Fin (of_int (digitsVal (a @ [d])) * pow10 (- 1)), [])"
proof -
  obtain c r where ar: "a = c # r" using a by (cases a) auto
  then have c: "isDigit c" using da by simp
  have inf: "\<not> startsWith (a @ ''.'' @ [d]) ''Infinity''"
    using isDigit_not_special(1) [OF c] by (simp add: startsWith_def ar)
  have tw: "takeWhile isDigit (a @ ''.'' @ [d]) = a"
    using da not_isDigit_dot by (simp add: takeWhile_append2 list_all_iff)
  have dw: "dropWhile isDigit (a @ ''.'' @ [d]) = ''.'' @ [d]"
    using da not_isDigit_dot by (simp add: dropWhile_append2 list_all_iff)
  show ?thesis
    unfolding parseUnsignedDecimal_def Let_def tw dw
    using inf a dd by (simp add: startsWith_def parseExponent_def)
qed

lemma parseFloatStr_fixed:
  assumes a: "a \<noteq> []" and da: "list_all isDigit a" and dd: "isDigit d"
  shows "parseFloatStr (a @ ''.'' @ [d]) = Fin (of_int (digitsVal (a @ [d])) / 10)"
    and "parseFloatStr (''-'' @ a @ ''.'' @ [d]) = Fin (- (of_int (digitsVal (a @ [d])) / 10))"
proof -
  obtain c r where ar: "a = c # r" using a by (cases a) auto
  then have c: "isDigit c" using da by simp
  note sp = isDigit_not_special [OF c]
  have p: "pow10 (- 1) = 1 / 10" by (simp add: pow10_def)
  have u: "parseUnsignedDecimal (a @ ''.'' @ [d]) =
           Some (Fin (of_int (digitsVal (a @ [d])) / 10), [])"
    using parseUnsignedDecimal_fixed [OF a da dd] by (simp add: p)
  have "parseDecimal (a @ ''.'' @ [d]) = parseUnsignedDecimal (a @ ''.'' @ [d])"
    using sp by (simp add: parseDecimal_def startsWith_def ar)
  moreover have "dropWhile isWhiteSpace (a @ ''.'' @ [d]) = a @ ''.'' @ [d]"
    using sp by (simp add: ar)
  ultimately show "parseFloatStr (a @ ''.'' @ [d]) = Fin (of_int (digitsVal (a @ [d])) / 10)"
    using u by (simp add: parseFloatStr_def)
  have "parseDecimal (''-'' @ a @ ''.'' @ [d]) =
          map_option (\<lambda>(v, r). (js_neg v, r)) (parseUnsignedDecimal (a @ ''.'' @ [d]))"
    by (simp add: parseDecimal_def startsWith_def)
  moreover have "dropWhile isWhiteSpace (''-'' @ a @ ''.'' @ [d]) = ''-'' @ a @ ''.'' @ [d]"
    by (simp add: isWhiteSpace_def)
  ultimately show "parseFloatStr (''-'' @ a @ ''.'' @ [d]) = Fin (- (of_int (digitsVal (a @ [d])) / 10))"
    using u by (simp add: parseFloatStr_def js_neg_def)
qed


lemma toFixed1_small:
  assumes "\<bar>x\<bar> < 10 ^ 21"
  shows "toFixed1 x =
           (if x < 0 then ''-'' else []) @
           butlast (if length (natDigits \<lfloor>\<bar>x\<bar> * 10 + 1 / 2\<rfloor>) \<le> 1
                    then CHR ''0'' # natDigits \<lfloor>\<bar>x\<bar> * 10 + 1 / 2\<rfloor>
                    else natDigits \<lfloor>\<bar>x\<bar> * 10 + 1 / 2\<rfloor>) @
           ''.'' @
           [last (if length (natDigits \<lfloor>\<bar>x\<bar> * 10 + 1 / 2\<rfloor>) \<le> 1
                  then CHR ''0'' # natDigits \<lfloor>\<bar>x\<bar> * 10 + 1 / 2\<rfloor>
                  else natDigits \<lfloor>\<bar>x\<bar> * 10 + 1 / 2\<rfloor>)]"
  using assms by (simp add: toFixed1_def Let_def)

lemma toFixed1_reads_back:
  fixes k :: int
  assumes "\<bar>of_int k / 10 :: rat\<bar> < 10 ^ 21"
  shows "parseFloatStr (toFixed1 (of_int k / 10)) = Fin (of_int k / 10)"
proof -
  let ?m = "natDigits \<bar>k\<bar>"
  let ?m' = "if length ?m \<le> 1 then CHR ''0'' # ?m else ?m"
  have fl: "\<lfloor>\<bar>of_int k / 10 :: rat\<bar> * 10 + 1 / 2\<rfloor> = \<bar>k\<bar>"
  proof -
    have "\<bar>of_int k / 10 :: rat\<bar> * 10 = of_int \<bar>k\<bar>" by (simp add: abs_divide)
    moreover have "\<lfloor>(of_int \<bar>k\<bar> :: rat) + 1 / 2\<rfloor> = \<bar>k\<bar>" by linarith
    ultimately show ?thesis by (simp only:)
  qed
  have neg: "(of_int k / 10 :: rat) < 0 \<longleftrightarrow> k < 0" by (simp add: divide_less_0_iff)
  have tf: "toFixed1 (of_int k / 10) =
              (if k < 0 then ''-'' else []) @ butlast ?m' @ ''.'' @ [last ?m']"
    using toFixed1_small [OF assms] by (simp only: fl neg)
  have ne: "?m \<noteq> []" by (rule natDigits_nonempty)
  have dg: "list_all isDigit ?m'"
    using natDigits_digits [of "\<bar>k\<bar>"] by (simp add: isDigit_def)
  have "1 \<le> length ?m" using ne by (cases ?m) auto
  then have len: "2 \<le> length ?m'" by auto
  then have m': "?m' \<noteq> []" by auto
  have a: "butlast ?m' \<noteq> []" using len by (cases ?m' rule: rev_cases) auto
  have al: "\<forall>c \<in> set ?m'. isDigit c" using dg by (simp only: list_all_iff)
  then have "\<forall>c \<in> set (butlast ?m'). isDigit c" using in_set_butlastD by fast
  then have da: "list_all isDigit (butlast ?m')" by (simp only: list_all_iff)
  have dd: "isDigit (last ?m')"
    using al last_in_set [OF m'] by blast
  have "butlast ?m' @ [last ?m'] = ?m'" using m' by (rule append_butlast_last_id)
  then have "digitsVal (butlast ?m' @ [last ?m']) = digitsVal ?m'" by (simp only:)
  also have "\<dots> = digitsVal ?m" by (simp add: digitsVal_leading_zero)
  also have "\<dots> = \<bar>k\<bar>" by (simp add: digitsVal_natDigits)
  finally have v: "digitsVal (butlast ?m' @ [last ?m']) = \<bar>k\<bar>" .
  show ?thesis
  proof (cases "k < 0")
    case True
    have "parseFloatStr (toFixed1 (of_int k / 10)) =
            Fin (- (of_int (digitsVal (butlast ?m' @ [last ?m'])) / 10))"
      using parseFloatStr_fixed(2) [OF a da dd] True by (simp only: tf if_True)
    then have "parseFloatStr (toFixed1 (of_int k / 10)) = Fin (- (of_int \<bar>k\<bar> / 10))"
      by (simp only: v)
    then show ?thesis using True by simp
  next
    case False
    have "parseFloatStr (toFixed1 (of_int k / 10)) =
            Fin (of_int (digitsVal (butlast ?m' @ [last ?m'])) / 10)"
      using parseFloatStr_fixed(1) [OF a da dd] False by (simp only: tf if_False append_Nil)
    then have "parseFloatStr (toFixed1 (of_int k / 10)) = Fin (of_int \<bar>k\<bar> / 10)"
      by (simp only: v)
    then show ?thesis using False by simp
  qed
qed


lemma parse_zero_one: "parseFloatStr ''0'' = Fin 0" "parseFloatStr ''1'' = Fin 1"
  by code_simp+


text \<open>Below \<open>10 ^ 21\<close> the formatted string of a value that coerces to a finite number
  reads back as that number rounded to a tenth.\<close>

lemma formatSyncValue_rounds:
  assumes n: "toNumber v = Fin x"
    and small: "\<bar>of_int (mathRound (x * 10)) / 10 :: rat\<bar> < 10 ^ 21"
  shows "parseFloatStr (formatSyncValue v) = Fin (of_int (mathRound (x * 10)) / 10)"
proof -
  consider "x = 0" | "x = 1" | "x \<noteq> 0" "x \<noteq> 1" by blast
  then show ?thesis
  proof cases
    case 1
    have "mathRound 0 = 0" unfolding mathRound_def by linarith
    then show ?thesis
      using n 1 by (simp add: formatSyncValue_coerced_zero_one parse_zero_one)
  next
    case 2
    have "mathRound 10 = 10" unfolding mathRound_def by linarith
    then show ?thesis
      using n 2 by (simp add: formatSyncValue_coerced_zero_one parse_zero_one)
  next
    case 3
    have "v \<noteq> VBool b" for b using n 3 by (auto simp: toNumber_def split: if_splits)
    then have "formatSyncValue v = toFixed1 (of_int (mathRound (x * 10)) / 10)"
      using n 3 by (simp add: formatSyncValue_def)
    then show ?thesis using toFixed1_reads_back [OF small] by simp
  qed
qed




text \<open>
  C4.  \<open>formatSyncValue\<close> maps \<open>true\<close> and \<open>false\<close> to \<open>"1"\<close> and \<open>"0"\<close>, every value
  that coerces to 0 or 1 to \<open>"0"\<close> or \<open>"1"\<close>, and every value that does not coerce to a
  finite number to its string (the lemmas above); a value coercing to another finite number
  is rounded to a tenth, within 1/20, and printed with one digit after the point, from which
  the rounded number reads back, as long as the rounded value is below \<open>10 ^ 21\<close> in
  magnitude.  From \<open>10 ^ 21\<close> on \<open>toFixed(1)\<close>
  switches to exponent notation: the number \<open>10 ^ 21\<close> is formatted as \<open>1e+21\<close>, with no
  digit after a point, although the function is documented to print such numbers with one
  decimal.
\<close>

theorem formatSyncValue_large: "formatSyncValue (VNum (Fin (10 ^ 21))) = ''1e+21''"
  by code_simp

section \<open>Stepping a gain\<close>







lemma parseFloat_undefined: "parseFloat VUndef = NaN"
  by code_simp


lemma stored_example:
  "syncState (storeSyncValue exampleInstance ''gain_input_1_1'' (VNum (Fin (- 2)))) ''gain_input_1_1'' =
     Some (VStr ''-2.0'')"
  "syncState (storeSyncValue exampleInstance ''gain_input_1_1'' (VNum (Fin (- 119)))) ''gain_input_1_1'' =
     Some (VStr ''-119.0'')"
  by code_simp+




section \<open>Channel mute toggle\<close>







section \<open>Crosspoint mute toggle\<close>












section \<open>Path-only frames\<close>

lemma and_not_3_int: "(k::int) AND NOT 3 = 4 * (k div 4)"
proof -
  have "k AND NOT (mask 2) = push_bit 2 (drop_bit 2 k)"
  proof (rule bit_eqI)
    fix i :: nat
    have "2 \<le> i \<Longrightarrow> i - 2 + 2 = i" by simp
    then show "bit (k AND NOT (mask 2)) i = bit (push_bit 2 (drop_bit 2 k)) i"
      by (auto simp: bit_and_iff bit_not_iff bit_mask_iff bit_push_bit_iff bit_drop_bit_eq
          add.commute)
  qed
  moreover have "(mask 2 :: int) = 3" by (simp add: mask_eq_exp_minus_1)
  ultimately show ?thesis by (simp add: push_bit_eq_mult drop_bit_eq_div)
qed

lemma align4_eq:
  assumes "0 \<le> n" and "n + 3 < 2 ^ 31"
  shows "align4 n = 4 * ((n + 3) div 4)"
proof -
  define j where "j = 4 * ((n + 3) div 4)"
  have w: "(word_of_int (n + 3) :: 32 word) AND NOT 3 = word_of_int ((n + 3) AND NOT 3)"
    by (simp add: of_int_and_eq of_int_not_eq)
  have r: "- (2 ^ 31) \<le> j" "j < 2 ^ 31" using assms by (simp_all add: j_def)
  have "align4 n = sint (word_of_int ((n + 3) AND NOT 3) :: 32 word)"
    by (simp only: align4_def w)
  also have "\<dots> = sint (word_of_int j :: 32 word)"
    by (simp only: and_not_3_int j_def)
  also have "\<dots> = j"
    using r by (simp add: sint_sbintrunc' signed_take_bit_int_eq_self)
  finally show ?thesis by (simp only: j_def)
qed

lemma align4_ceil4:
  assumes "n + 3 < 2 ^ 31"
  shows "align4 (int n) = int (ceil4 n)"
proof -
  have "int (n + 3) < int (2 ^ 31)" using assms by (simp only: of_nat_less_iff)
  then have b: "int n + 3 < 2 ^ 31" by simp
  have "0 \<le> int n" by simp
  then have "align4 (int n) = 4 * ((int n + 3) div 4)" using b by (rule align4_eq)
  also have "\<dots> = int (4 * ((n + 3) div 4))" by (simp only: of_nat_mult of_nat_div of_nat_add of_nat_numeral)
  finally show ?thesis by (simp only: ceil4_def)
qed

lemma bufSlice_front: "0 \<le> m \<Longrightarrow> bufSlice b 0 m = take (nat m) b"
  by (simp add: bufSlice_def Let_def min_def)

lemma bufSlice_rest: "0 \<le> m \<Longrightarrow> m \<le> int (length b) \<Longrightarrow> bufSlice b m (int (length b)) = drop (nat m) b"
  by (simp add: bufSlice_def Let_def min_def)

lemma indexOfZero_eq:
  "0 \<in> set buf \<Longrightarrow> indexOfZero buf = int (length (takeWhile (\<lambda>b. b \<noteq> 0) buf))"
  by (simp add: indexOfZero_def)

lemma take_takeWhile: "take (length (takeWhile P xs)) xs = takeWhile P xs"
  by (induction xs) auto

lemma uint_byte_mod:
  fixes b :: byte
  shows "uint b mod 256 = uint b"
proof -
  have "uint b < 256" using uint_bounded [of b] by simp
  then show ?thesis by simp
qed


lemma parsePathOnlyOsc_Some:
  fixes buf :: "byte list"
  defines "nul \<equiv> takeWhile (\<lambda>b. b \<noteq> 0) buf"
  assumes slash: "hd buf = 0x2f" and zero: "0 \<in> set buf" and more: "2 \<le> length nul"
    and printable: "list_all (\<lambda>b. 0x20 \<le> uint b \<and> uint b \<le> 0x7e) nul"
    and small: "length nul + 4 < 2 ^ 31"
    and complete: "ceil4 (length nul + 1) \<le> length buf"
  shows "parsePathOnlyOsc buf = Some (bytesToString nul, int (ceil4 (length nul + 1)))"
proof -
  have c4: "4 \<le> ceil4 (length nul + 1)" by (simp add: ceil4_def)
  with complete have len: "\<not> length buf < 2" by simp
  have idx: "indexOfZero buf = int (length nul)"
    using zero by (simp add: indexOfZero_eq nul_def)
  have tk: "take (nat (int (length nul))) buf = nul"
    by (simp add: nul_def take_takeWhile)
  obtain b r where nul: "nul = b # r" using more by (cases nul) auto
  have "buf \<noteq> []" using zero by auto
  then have "hd nul = hd buf" using nul unfolding nul_def by (cases buf) (auto split: if_splits)
  then have b: "b = 0x2f" using nul slash by simp
  have r: "r \<noteq> []" using more nul by auto
  have pr: "list_all (\<lambda>ch. 0x20 \<le> (of_char ch :: int) \<and> (of_char ch :: int) \<le> 0x7e)
              (map (\<lambda>b. char_of (uint b)) r)"
    using printable nul by (simp add: list_all_iff uint_byte_mod)
  have "char_of (uint (0x2f :: byte)) = CHR ''/''" by code_simp
  then have path: "isPrintablePath (bytesToString nul)"
    using r pr by (simp add: isPrintablePath_def bytesToString_def nul b)
  have al: "align4 (int (length nul) + 1) = int (ceil4 (length nul + 1))"
    using align4_ceil4 [of "length nul + 1"] small by (simp add: add.commute)
  have ne: "nul \<noteq> []" using more by auto
  show ?thesis
    unfolding parsePathOnlyOsc_def Let_def idx tk al
    using slash len ne path complete by simp
qed

lemma parseFrame_pathOnly:
  assumes p: "parsePathOnlyOsc (receiveBuffer s) = Some (path, n)"
    and l: "4 \<le> length (receiveBuffer s)"
    and d: "getCompleteMessageLength L (receiveBuffer s) \<le> length (receiveBuffer s) \<longrightarrow>
            readPacket L True (take (getCompleteMessageLength L (receiveBuffer s)) (receiveBuffer s)) = None"
    and n: "0 \<le> n"
  shows "parseFrame L s =
           Some (dispatchPacket (s\<lparr>receiveBuffer := drop (nat n) (receiveBuffer s)\<rparr>) (Message path []))"
proof -
  let ?buf = "receiveBuffer s"
  have le: "n \<le> int (length ?buf)"
    using p by (auto simp: parsePathOnlyOsc_def Let_def split: if_splits)
  have p0: "(if int (getCompleteMessageLength L ?buf) \<le> int (length ?buf)
             then readPacket L True (bufSlice ?buf 0 (int (getCompleteMessageLength L ?buf)))
             else None) = None"
    using d by (simp add: bufSlice_front)
  show ?thesis
    unfolding parseFrame_def Let_def p0
    using p l le n by (simp add: bufSlice_rest)
qed


lemma pingFrame_facts:
  "hd pingFrame = 0x2f" "0 \<in> set pingFrame"
  "takeWhile (\<lambda>b. b \<noteq> 0) pingFrame = bytesOf ''/ping/unit1''"
  "length (bytesOf ''/ping/unit1'') = 11"
  "list_all (\<lambda>b. 0x20 \<le> uint b \<and> uint b \<le> 0x7e) (bytesOf ''/ping/unit1'')"
  "length pingFrame = 12"
  "bytesToString (bytesOf ''/ping/unit1'') = ''/ping/unit1''"
  "drop 12 pingFrame = []"
  "getCompleteMessageLength osc_model pingFrame = 13"
  "readPacket osc_model False pingFrame = None"
  by code_simp+

lemma parsePathOnlyOsc_pingFrame: "parsePathOnlyOsc pingFrame = Some (''/ping/unit1'', 12)"
  by code_simp

text \<open>
  C6 (as amended).  A buffer that starts with \<open>/\<close>, has at least one more byte before its
  first zero byte, has only printable ASCII before that zero byte, and holds the
  \<open>ceil4(n + 1)\<close> bytes of the padded address (\<open>n\<close> bytes before the zero, frame end below
  \<open>2 ^ 31\<close>) is recognised by \<open>parsePathOnlyOsc\<close> with that address and that length.  In the
  reassembly loop, when the standard decode of the buffer gave no packet, the frame is
  dispatched as the message with that address and no arguments, and exactly those
  \<open>ceil4(n + 1)\<close> bytes are cut off the buffer.  The twelve bytes \<open>/ping/unit1\<close> and a zero
  give the address \<open>/ping/unit1\<close> and the length 12.
\<close>

theorem path_only_frame_decoded:
  fixes buf :: "byte list" and s :: dbt44 and L :: osc_lib
  defines "nul \<equiv> takeWhile (\<lambda>b. b \<noteq> 0) buf"
  assumes "hd buf = 0x2f" and "0 \<in> set buf" and "2 \<le> length nul"
    and "list_all (\<lambda>b. 0x20 \<le> uint b \<and> uint b \<le> 0x7e) nul"
    and "length nul + 4 < 2 ^ 31"
    and "ceil4 (length nul + 1) \<le> length buf"
  shows "parsePathOnlyOsc buf = Some (bytesToString nul, int (ceil4 (length nul + 1))) \<and>
         (receiveBuffer s = buf \<and>
          (getCompleteMessageLength L buf \<le> length buf \<longrightarrow>
             readPacket L True (take (getCompleteMessageLength L buf) buf) = None) \<longrightarrow>
            parseFrame L s =
              Some (dispatchPacket (s\<lparr>receiveBuffer := drop (ceil4 (length nul + 1)) buf\<rparr>)
                      (Message (bytesToString nul) []))) \<and>
         parsePathOnlyOsc pingFrame = Some (''/ping/unit1'', 12)"
proof (intro conjI impI)
  show p: "parsePathOnlyOsc buf = Some (bytesToString nul, int (ceil4 (length nul + 1)))"
    unfolding nul_def
    by (rule parsePathOnlyOsc_Some) (use assms in \<open>simp_all only: nul_def\<close>)
  show "parseFrame L s =
          Some (dispatchPacket (s\<lparr>receiveBuffer := drop (ceil4 (length nul + 1)) buf\<rparr>)
                  (Message (bytesToString nul) []))"
    if h: "receiveBuffer s = buf \<and>
          (getCompleteMessageLength L buf \<le> length buf \<longrightarrow>
             readPacket L True (take (getCompleteMessageLength L buf) buf) = None)"
  proof -
    have "4 \<le> ceil4 (length nul + 1)" by (simp add: ceil4_def)
    then have l: "4 \<le> length (receiveBuffer s)" using assms(7) h by simp
    show ?thesis
      using parseFrame_pathOnly [of s "bytesToString nul" "int (ceil4 (length nul + 1))" L] p h l
      by simp
  qed
  show "parsePathOnlyOsc pingFrame = Some (''/ping/unit1'', 12)"
    by (rule parsePathOnlyOsc_pingFrame)
qed

theorem path_only_frame_decoded_witness:
  "parsePathOnlyOsc pingFrame = Some (''/ping/unit1'', int (ceil4 (11 + 1))) \<and>
   receiveBuffer (instanceWith pingFrame) = pingFrame \<and>
   getCompleteMessageLength osc_model pingFrame = 13 \<and>
   length pingFrame = 12 \<and>
   parseFrame osc_model (instanceWith pingFrame) =
     Some (dispatchPacket (instanceWith pingFrame\<lparr>receiveBuffer := []\<rparr>)
             (Message ''/ping/unit1'' []))"
proof -
  have r: "receiveBuffer (instanceWith pingFrame) = pingFrame"
    by (simp add: instanceWith_def)
  have b: "(11::nat) + 4 < 2 ^ 31" by simp
  have c: "ceil4 12 = 12" by (simp add: ceil4_def)
  have d: "getCompleteMessageLength osc_model pingFrame \<le> length pingFrame \<longrightarrow>
        readPacket osc_model True
          (take (getCompleteMessageLength osc_model pingFrame) pingFrame) = None"
    by (simp add: pingFrame_facts)
  show ?thesis
    using path_only_frame_decoded [of pingFrame "instanceWith pingFrame" osc_model] r b d
    by (simp add: pingFrame_facts c)
qed

text \<open>
  C6 as the specification states it fails in two ways.  A lone slash: the four bytes \<open>/\<close>,
  0, 0, 0 start with \<open>/\<close>, have only the printable address \<open>/\<close> before the first zero byte
  and hold the \<open>ceil4(2) = 4\<close> bytes, yet \<open>parsePathOnlyOsc\<close> rejects them (its pattern asks
  for a character after the slash), the standard decode fails as well, and the loop leaves
  the buffer as it is.  And a standard message: the 32 bytes of the gain message start
  with \<open>/\<close>, have the printable address before the first zero byte and hold its
  \<open>ceil4(22) = 24\<close> bytes, but the loop decodes them as the message with its float argument,
  stores \<open>-2.0\<close> (not the \<open>0\<close> of a message without arguments) and cuts off 32 bytes, not
  24: what follows the message is all that is left in the buffer.
\<close>

theorem path_only_frame_counterexample:
  "hd slashFrame = 0x2f \<and>
   indexOfZero slashFrame = 1 \<and>
   bytesToString (take 1 slashFrame) = ''/'' \<and>
   ceil4 (1 + 1) = length slashFrame \<and>
   parsePathOnlyOsc slashFrame = None \<and>
   readPacket osc_model False slashFrame = None \<and>
   map_option receiveBuffer (parseOscIncoming osc_model (instanceWith slashFrame)) = Some slashFrame \<and>
   hd gainFrame = 0x2f \<and>
   indexOfZero gainFrame = 21 \<and>
   bytesToString (take 21 gainFrame) = ''/gain/input/2/5/unit1'' \<and>
   isPrintablePath ''/gain/input/2/5/unit1'' \<and>
   ceil4 (21 + 1) = 24 \<and>
   length gainFrame = 32 \<and>
   readPacket osc_model True gainFrame =
     Some (Message ''/gain/input/2/5/unit1'' [floatArg (Fin (- 2))]) \<and>
   map_option receiveBuffer (parseOscIncoming osc_model (instanceWith (gainFrame @ garbage))) =
     Some garbage \<and>
   syncState (the (parseOscIncoming osc_model (instanceWith (gainFrame @ garbage))))
     ''gain_input_2_5'' = Some (VStr ''-2.0'')"
  by code_simp

section \<open>Frame length and the reassembly loop\<close>

lemma getCompleteMessageLength_fail:
  "readPacket L False buf = None \<Longrightarrow> getCompleteMessageLength L buf = length buf + 1"
  by (simp add: getCompleteMessageLength_def)

lemma getCompleteMessageLength_ok:
  "readPacket L False buf = Some p \<Longrightarrow> writePacketLength L p = Some n \<Longrightarrow>
     getCompleteMessageLength L buf = n"
  by (simp add: getCompleteMessageLength_def)

lemma gainFrame_facts:
  "readPacket osc_model False (gainFrame @ pingFrame) =
     Some (Message ''/gain/input/2/5/unit1'' [floatArg (Fin (- 2))])"
  "writePacketLength osc_model (Message ''/gain/input/2/5/unit1'' [floatArg (Fin (- 2))]) = Some 32"
  "length (gainFrame @ pingFrame) = 44"
  by code_simp+

text \<open>
  C7 (as amended).  \<open>getCompleteMessageLength\<close> cannot throw (the \<open>catch\<close> covers both
  library calls): its result is always either the sentinel \<open>buffer.length + 1\<close> or the
  length of the re-encoded decoded packet.  When the standard decode of the buffer succeeds,
  it returns the length of the re-encoded first packet; when the decode fails, it returns
  \<open>buffer.length + 1\<close>, also for a path-only frame.  The path-only length is not computed by
  this function: the reassembly loop applies it afterwards, and then cuts exactly that
  length off the buffer and dispatches the address without arguments.
\<close>

theorem getCompleteMessageLength_cases:
  "(getCompleteMessageLength L buf = length buf + 1 \<or>
    (\<exists>q. readPacket L False buf = Some q \<and>
          writePacketLength L q = Some (getCompleteMessageLength L buf))) \<and>
   (readPacket L False buf = None \<longrightarrow> getCompleteMessageLength L buf = length buf + 1) \<and>
   (readPacket L False buf = Some p \<and> writePacketLength L p = Some n \<longrightarrow>
      getCompleteMessageLength L buf = n) \<and>
   (readPacket L False (receiveBuffer s) = None \<and> 4 \<le> length (receiveBuffer s) \<and>
    parsePathOnlyOsc (receiveBuffer s) = Some (path, m) \<and> 0 \<le> m \<longrightarrow>
      getCompleteMessageLength L (receiveBuffer s) = length (receiveBuffer s) + 1 \<and>
      parseFrame L s =
        Some (dispatchPacket (s\<lparr>receiveBuffer := drop (nat m) (receiveBuffer s)\<rparr>)
                (Message path [])))"
proof (intro conjI impI)
  show "getCompleteMessageLength L buf = length buf + 1 \<or>
    (\<exists>q. readPacket L False buf = Some q \<and>
          writePacketLength L q = Some (getCompleteMessageLength L buf))"
    by (auto simp: getCompleteMessageLength_def split: option.splits)
  show "getCompleteMessageLength L buf = length buf + 1" if "readPacket L False buf = None"
    using that by (rule getCompleteMessageLength_fail)
  show "getCompleteMessageLength L buf = n"
    if "readPacket L False buf = Some p \<and> writePacketLength L p = Some n"
    using that by (simp add: getCompleteMessageLength_ok)
next
  assume h: "readPacket L False (receiveBuffer s) = None \<and> 4 \<le> length (receiveBuffer s) \<and>
    parsePathOnlyOsc (receiveBuffer s) = Some (path, m) \<and> 0 \<le> m"
  then show g: "getCompleteMessageLength L (receiveBuffer s) = length (receiveBuffer s) + 1"
    by (simp add: getCompleteMessageLength_fail)
  show "parseFrame L s =
        Some (dispatchPacket (s\<lparr>receiveBuffer := drop (nat m) (receiveBuffer s)\<rparr>) (Message path []))"
    using parseFrame_pathOnly [of s path m L] h g by simp
qed

theorem getCompleteMessageLength_cases_witness:
  "readPacket osc_model False pingFrame = None \<and>
   getCompleteMessageLength osc_model pingFrame = 13 \<and>
   readPacket osc_model False (gainFrame @ pingFrame) =
     Some (Message ''/gain/input/2/5/unit1'' [floatArg (Fin (- 2))]) \<and>
   writePacketLength osc_model (Message ''/gain/input/2/5/unit1'' [floatArg (Fin (- 2))]) = Some 32 \<and>
   getCompleteMessageLength osc_model (gainFrame @ pingFrame) = 32 \<and>
   parsePathOnlyOsc pingFrame = Some (''/ping/unit1'', 12) \<and>
   parseFrame osc_model (instanceWith pingFrame) =
     Some (dispatchPacket (instanceWith pingFrame\<lparr>receiveBuffer := []\<rparr>)
             (Message ''/ping/unit1'' []))"
proof -
  have r: "receiveBuffer (instanceWith pingFrame) = pingFrame"
    by (simp add: instanceWith_def)
  show ?thesis
    using getCompleteMessageLength_cases [of osc_model pingFrame "Message [] []" 0
        "instanceWith pingFrame" "''/ping/unit1''" 12]
      getCompleteMessageLength_cases [of osc_model "gainFrame @ pingFrame"
        "Message ''/gain/input/2/5/unit1'' [floatArg (Fin (- 2))]" 32
        "instanceWith pingFrame" "''/ping/unit1''" 12]
    by (simp add: r pingFrame_facts parsePathOnlyOsc_pingFrame gainFrame_facts)
qed

text \<open>
  C7 as the specification states it fails on the ping echo: the standard decode of the twelve bytes fails,
  the path-only frame length is 12, and \<open>getCompleteMessageLength\<close> returns 13, the sentinel,
  not 12.
\<close>

theorem getCompleteMessageLength_counterexample:
  "readPacket osc_model False pingFrame = None \<and>
   parsePathOnlyOsc pingFrame = Some (''/ping/unit1'', 12) \<and>
   length pingFrame = 12 \<and>
   getCompleteMessageLength osc_model pingFrame = 13"
  by code_simp

text \<open>The loop at work: two gain messages with a ping echo between them are all consumed,
  the gain is stored once under its identifier, and the ping is not stored.\<close>

lemma reassembly_example:
  "map_option receiveBuffer
     (parseOscIncoming osc_model (instanceWith (gainFrame @ pingFrame @ gainFrame))) = Some []"
  "syncState (the (parseOscIncoming osc_model (instanceWith (gainFrame @ pingFrame @ gainFrame))))
     ''gain_input_2_5'' = Some (VStr ''-2.0'')"
  "syncVariableDefs (the (parseOscIncoming osc_model (instanceWith (gainFrame @ pingFrame @ gainFrame)))) =
     [''gain_input_2_5'']"
  by code_simp+

lemma parseFrame_break:
  assumes "readPacket L False (receiveBuffer s) = None"
    and "parsePathOnlyOsc (receiveBuffer s) = None \<or> length (receiveBuffer s) < 4"
  shows "parseFrame L s = None"
  using assms by (auto simp: parseFrame_def Let_def getCompleteMessageLength_fail)

text \<open>
  C1 (as amended).  When the standard decode of a non-empty receive buffer fails and the
  buffer is no path-only frame either, the body of the loop takes its \<open>break\<close>, and
  \<open>parseOscIncoming\<close> returns at once with the instance unchanged: no byte is dropped, no
  message is handled, and the unparseable bytes stay at the front of the buffer.  The loop
  does not spin, but it makes no progress either.
\<close>

theorem unparseable_front_kept:
  "receiveBuffer s \<noteq> [] \<and> readPacket L False (receiveBuffer s) = None \<and>
   (parsePathOnlyOsc (receiveBuffer s) = None \<or> length (receiveBuffer s) < 4) \<longrightarrow>
     parseFrame L s = None \<and> parseOscIncoming L s = Some s"
proof (intro impI conjI)
  assume h: "receiveBuffer s \<noteq> [] \<and> readPacket L False (receiveBuffer s) = None \<and>
   (parsePathOnlyOsc (receiveBuffer s) = None \<or> length (receiveBuffer s) < 4)"
  then show f: "parseFrame L s = None" by (simp add: parseFrame_break)
  have "parseLoop L s False = Some (s, False)"
    using h f by (subst parseLoop.simps) simp
  then show "parseOscIncoming L s = Some s" by (simp add: parseOscIncoming_def)
qed

lemma garbage_facts:
  "readPacket osc_model False garbage = None" "parsePathOnlyOsc garbage = None"
  "length garbage = 5"
  by code_simp+

theorem unparseable_front_kept_witness:
  "receiveBuffer (instanceWith garbage) = garbage \<and>
   garbage \<noteq> [] \<and>
   readPacket osc_model False garbage = None \<and>
   parsePathOnlyOsc garbage = None \<and>
   parseFrame osc_model (instanceWith garbage) = None \<and>
   parseOscIncoming osc_model (instanceWith garbage) = Some (instanceWith garbage)"
proof -
  have r: "receiveBuffer (instanceWith garbage) = garbage"
    by (simp add: instanceWith_def)
  have n: "garbage \<noteq> []" using garbage_facts(3) by auto
  show ?thesis
    using unparseable_front_kept [of "instanceWith garbage" osc_model] n
    by (simp add: r garbage_facts)
qed

text \<open>
  C1 as the specification states it fails on five bytes that start no frame: the standard decode and the
  path-only parse both fail, and after \<open>parseOscIncoming\<close> all five bytes are still in the
  buffer.
\<close>

theorem unparseable_front_counterexample:
  "readPacket osc_model False garbage = None \<and>
   parsePathOnlyOsc garbage = None \<and>
   length garbage = 5 \<and>
   map_option (length \<circ> receiveBuffer) (parseOscIncoming osc_model (instanceWith garbage)) = Some 5"
  by code_simp

text \<open>A complete message behind such bytes is not reached either.\<close>

lemma unparseable_front_blocks:
  "map_option receiveBuffer (parseOscIncoming osc_model (instanceWith (garbage @ gainFrame))) =
     Some (garbage @ gainFrame)"
  "syncState (the (parseOscIncoming osc_model (instanceWith (garbage @ gainFrame))))
     ''gain_input_2_5'' = None"
  by code_simp+

end
